theory Spec2Isabelle
  imports Main "HOL-Library.Word" "HOL-Library.Char_ord" "HOL-Library.List_Lexorder"
begin

unbundle bit_operations_syntax

section \<open>The sequence matcher\<close>

text \<open>
  \<^verbatim>\<open>GetAdditions\<close>, \<^verbatim>\<open>GetDeletions\<close> and \<^verbatim>\<open>GetMatches\<close> of
  \<^verbatim>\<open>util/output_text_utils.go\<close> call \<^verbatim>\<open>difflib.NewMatcher\<close>, \<^verbatim>\<open>GetMatchingBlocks\<close> and
  \<^verbatim>\<open>GetGroupedOpCodes(0)\<close>. The matcher is a library the repository imports; its
  code is not among the sources, so the matcher below follows the specification
  (sections 3 and 4.1). Indices are Go \<^verbatim>\<open>int\<close>s that stay between 0 and the length of
  a sequence, so they are naturals here.
\<close>

text \<open>Modelled from the spec: the Matching Block record \<^verbatim>\<open>{startInFirst, startInSecond, length}\<close>
  of the matcher library (\<^verbatim>\<open>difflib.Match\<close>, fields \<^verbatim>\<open>A\<close>, \<^verbatim>\<open>B\<close>, \<^verbatim>\<open>Size\<close> as
  \<^verbatim>\<open>GetMatches\<close> reads them).\<close>

record Match =
  m_A :: nat
  m_B :: nat
  m_Size :: nat

text \<open>Modelled from the spec: the Opcode record \<^verbatim>\<open>{tag, i1, i2, j1, j2}\<close> of the matcher
  library (\<^verbatim>\<open>difflib.OpCode\<close>); the tag is one of the bytes \<^verbatim>\<open>e\<close> (equal),
  \<^verbatim>\<open>r\<close> (replace), \<^verbatim>\<open>i\<close> (insert), \<^verbatim>\<open>d\<close> (delete), as the source tests them.\<close>

record OpCode =
  oc_Tag :: char
  oc_I1 :: nat
  oc_I2 :: nat
  oc_J1 :: nat
  oc_J2 :: nat

text \<open>The Go slice expression \<^verbatim>\<open>xs[i:j]\<close>. Go panics unless \<open>i \<le> j \<le> length xs\<close>;
  every slice the source takes is within these bounds (lemma \<open>opcodes_in_range\<close> below and
  the window invariant of the matching blocks).\<close>

definition subslice :: "'a list \<Rightarrow> nat \<Rightarrow> nat \<Rightarrow> 'a list" where
  "subslice xs i j = take (j - i) (drop i xs)"

text \<open>The length of the longest common prefix of two sequences.\<close>

fun common_len :: "'a list \<Rightarrow> 'a list \<Rightarrow> nat" where
  "common_len (x # xs) (y # ys) = (if x = y then Suc (common_len xs ys) else 0)"
| "common_len _ _ = 0"

text \<open>Modelled from the spec: a common contiguous run of the matcher library. The candidate
  run that starts at \<open>a[i]\<close> and \<open>b[j]\<close> and stays inside the windows \<open>a[..ahi]\<close>,
  \<open>b[..bhi]\<close>.\<close>

definition run_at :: "string list \<Rightarrow> string list \<Rightarrow> nat \<Rightarrow> nat \<Rightarrow> nat \<Rightarrow> nat \<Rightarrow> Match" where
  "run_at a b ahi bhi i j = \<lparr>m_A = i, m_B = j, m_Size = common_len (subslice a i ahi) (subslice b j bhi)\<rparr>"

text \<open>Modelled from the spec: the tie-break of the matcher library. A later candidate replaces
  the best one only when it is strictly longer, so among the longest runs the earliest start
  in \<open>a\<close>, then the earliest in \<open>b\<close>, wins.\<close>

definition longer :: "Match \<Rightarrow> Match \<Rightarrow> Match" where
  "longer best c = (if m_Size c > m_Size best then c else best)"

text \<open>Modelled from the spec: the longest-match search of the matcher library
  (\<^verbatim>\<open>findLongestMatch\<close>): "find the single longest common contiguous run anywhere in the two
  sequences", ties "broken by earliest starting position in a, then earliest in b". With no
  common element the result has length 0.\<close>

definition findLongestMatch :: "string list \<Rightarrow> string list \<Rightarrow> nat \<Rightarrow> nat \<Rightarrow> nat \<Rightarrow> nat \<Rightarrow> Match" where
  "findLongestMatch a b alo ahi blo bhi =
     foldl longer \<lparr>m_A = alo, m_B = blo, m_Size = 0\<rparr>
       (concat (map (\<lambda>i. map (\<lambda>j. run_at a b ahi bhi i j) [blo..<bhi]) [alo..<ahi]))"

lemma common_len_le1: "common_len xs ys \<le> length xs"
  by (induction xs ys rule: common_len.induct) auto

lemma common_len_le2: "common_len xs ys \<le> length ys"
  by (induction xs ys rule: common_len.induct) auto

lemma common_len_take: "take (common_len xs ys) xs = take (common_len xs ys) ys"
  by (induction xs ys rule: common_len.induct) auto

definition in_window :: "nat \<Rightarrow> nat \<Rightarrow> nat \<Rightarrow> nat \<Rightarrow> Match \<Rightarrow> bool" where
  "in_window alo ahi blo bhi m \<longleftrightarrow>
     alo \<le> m_A m \<and> m_A m + m_Size m \<le> ahi \<and> blo \<le> m_B m \<and> m_B m + m_Size m \<le> bhi"

lemma foldl_longer_cases:
  "foldl longer m0 cs = m0 \<or> (foldl longer m0 cs \<in> set cs \<and> 0 < m_Size (foldl longer m0 cs))"
proof (induction cs arbitrary: m0)
  case Nil
  then show ?case by simp
next
  case (Cons c cs)
  show ?case
    using Cons.IH [of "longer m0 c"]
    by (auto simp: longer_def split: if_splits)
qed

lemma run_at_window:
  assumes "alo \<le> i" "i < ahi" "blo \<le> j" "j < bhi"
  shows "in_window alo ahi blo bhi (run_at a b ahi bhi i j)"
proof -
  have "common_len (subslice a i ahi) (subslice b j bhi) \<le> ahi - i"
    using common_len_le1 [of "subslice a i ahi" "subslice b j bhi"] by (simp add: subslice_def)
  moreover have "common_len (subslice a i ahi) (subslice b j bhi) \<le> bhi - j"
    using common_len_le2 [of "subslice a i ahi" "subslice b j bhi"] by (simp add: subslice_def)
  ultimately show ?thesis using assms unfolding in_window_def run_at_def by simp linarith
qed

lemma findLongestMatch_cases:
  "findLongestMatch a b alo ahi blo bhi = \<lparr>m_A = alo, m_B = blo, m_Size = 0\<rparr> \<or>
   (\<exists>i j. alo \<le> i \<and> i < ahi \<and> blo \<le> j \<and> j < bhi \<and>
      findLongestMatch a b alo ahi blo bhi = run_at a b ahi bhi i j \<and>
      0 < m_Size (run_at a b ahi bhi i j))"
  unfolding findLongestMatch_def
  using foldl_longer_cases [of "\<lparr>m_A = alo, m_B = blo, m_Size = 0\<rparr>"
      "concat (map (\<lambda>i. map (\<lambda>j. run_at a b ahi bhi i j) [blo..<bhi]) [alo..<ahi])"]
  by auto

lemma findLongestMatch_window:
  assumes "0 < m_Size (findLongestMatch a b alo ahi blo bhi)"
  shows "in_window alo ahi blo bhi (findLongestMatch a b alo ahi blo bhi)"
  using findLongestMatch_cases [of a b alo ahi blo bhi] assms run_at_window
  by auto

text \<open>Modelled from the spec: the recursion of the matcher library's \<^verbatim>\<open>GetMatchingBlocks\<close>:
  "recurse independently on the portions before and after that run in both sequences; repeat
  until no common run remains". The blocks come out sorted by position.\<close>

function match_blocks :: "string list \<Rightarrow> string list \<Rightarrow> nat \<Rightarrow> nat \<Rightarrow> nat \<Rightarrow> nat \<Rightarrow> Match list" where
  "match_blocks a b alo ahi blo bhi =
     (let m = findLongestMatch a b alo ahi blo bhi in
      if m_Size m > 0
      then match_blocks a b alo (m_A m) blo (m_B m) @ [m] @
           match_blocks a b (m_A m + m_Size m) ahi (m_B m + m_Size m) bhi
      else [])"
  by pat_completeness auto
termination
proof (relation "measure (\<lambda>(a, b, alo, ahi, blo, bhi). ahi - alo)")
  show "wf (measure (\<lambda>(a, b, alo, ahi, blo, bhi). ahi - alo))" by simp
next
  fix a b :: "string list" and alo ahi blo bhi :: nat and m
  assume m: "m = findLongestMatch a b alo ahi blo bhi" and pos: "0 < m_Size m"
  from findLongestMatch_window [of a b alo ahi blo bhi] m pos
  have w: "in_window alo ahi blo bhi m" by simp
  show "((a, b, alo, m_A m, blo, m_B m), (a, b, alo, ahi, blo, bhi))
        \<in> measure (\<lambda>(a, b, alo, ahi, blo, bhi). ahi - alo)"
    using w pos unfolding in_window_def by simp linarith
  show "((a, b, m_A m + m_Size m, ahi, m_B m + m_Size m, bhi), (a, b, alo, ahi, blo, bhi))
        \<in> measure (\<lambda>(a, b, alo, ahi, blo, bhi). ahi - alo)"
    using w pos unfolding in_window_def by simp linarith
qed

declare match_blocks.simps [simp del]

text \<open>Modelled from the spec: \<^verbatim>\<open>GetMatchingBlocks\<close> of the matcher library: the blocks,
  "terminated with the sentinel" \<open>(len(first), len(second), 0)\<close>.\<close>

definition GetMatchingBlocks :: "string list \<Rightarrow> string list \<Rightarrow> Match list" where
  "GetMatchingBlocks a b =
     match_blocks a b 0 (length a) 0 (length b) @ [\<lparr>m_A = length a, m_B = length b, m_Size = 0\<rparr>]"


text \<open>Modelled from the spec: the opcodes of the matcher library (\<^verbatim>\<open>GetOpCodes\<close>). Walking
  the blocks from position \<open>(i, j)\<close>, the region before a block becomes one opcode,
  "replace (both sides non-empty), insert (only b-side non-empty), or delete (only a-side
  non-empty)", and a block of positive length becomes an equal opcode.\<close>

fun opcodes_from :: "nat \<Rightarrow> nat \<Rightarrow> Match list \<Rightarrow> OpCode list" where
  "opcodes_from i j [] = []"
| "opcodes_from i j (m # ms) =
     (let ai = m_A m; bj = m_B m; size = m_Size m in
      (if i < ai \<and> j < bj then [\<lparr>oc_Tag = CHR ''r'', oc_I1 = i, oc_I2 = ai, oc_J1 = j, oc_J2 = bj\<rparr>]
       else if i < ai then [\<lparr>oc_Tag = CHR ''d'', oc_I1 = i, oc_I2 = ai, oc_J1 = j, oc_J2 = bj\<rparr>]
       else if j < bj then [\<lparr>oc_Tag = CHR ''i'', oc_I1 = i, oc_I2 = ai, oc_J1 = j, oc_J2 = bj\<rparr>]
       else []) @
      (if size > 0
       then [\<lparr>oc_Tag = CHR ''e'', oc_I1 = ai, oc_I2 = ai + size, oc_J1 = bj, oc_J2 = bj + size\<rparr>]
       else []) @
      opcodes_from (ai + size) (bj + size) ms)"

definition GetOpCodes :: "string list \<Rightarrow> string list \<Rightarrow> OpCode list" where
  "GetOpCodes a b = opcodes_from 0 0 (GetMatchingBlocks a b)"

text \<open>Modelled from the spec: \<^verbatim>\<open>GetGroupedOpCodes(0)\<close> of the matcher library, the grouped
  opcodes with a zero-width context: "every maximal non-equal region between consecutive
  matches becomes one opcode", each change region a group of its own.\<close>

definition GetGroupedOpCodes0 :: "string list \<Rightarrow> string list \<Rightarrow> OpCode list list" where
  "GetGroupedOpCodes0 a b = map (\<lambda>c. [c]) (filter (\<lambda>c. oc_Tag c \<noteq> CHR ''e'') (GetOpCodes a b))"

subsection \<open>The three views of \<^verbatim>\<open>util/output_text_utils.go\<close>\<close>

text \<open>\<^verbatim>\<open>GetAdditions\<close>: the two nested loops over the groups and their opcodes append
  \<^verbatim>\<open>b[j1:j2]\<close> for the opcodes tagged \<^verbatim>\<open>r\<close> or \<^verbatim>\<open>i\<close>. \<^verbatim>\<open>GetDeletions\<close> appends
  \<^verbatim>\<open>a[i1:i2]\<close> for the tags \<^verbatim>\<open>r\<close> and \<^verbatim>\<open>d\<close>. \<^verbatim>\<open>GetMatches\<close> appends
  \<^verbatim>\<open>a[match.A : match.A + match.Size]\<close> for every block but the last.\<close>

definition GetAdditions :: "string list \<Rightarrow> string list \<Rightarrow> string list" where
  "GetAdditions a b =
     concat (map (\<lambda>opCode.
         if oc_Tag opCode = CHR ''r'' \<or> oc_Tag opCode = CHR ''i''
         then subslice b (oc_J1 opCode) (oc_J2 opCode) else [])
       (concat (GetGroupedOpCodes0 a b)))"

definition GetDeletions :: "string list \<Rightarrow> string list \<Rightarrow> string list" where
  "GetDeletions a b =
     concat (map (\<lambda>opCode.
         if oc_Tag opCode = CHR ''r'' \<or> oc_Tag opCode = CHR ''d''
         then subslice a (oc_I1 opCode) (oc_I2 opCode) else [])
       (concat (GetGroupedOpCodes0 a b)))"

definition GetMatches :: "string list \<Rightarrow> string list \<Rightarrow> string list" where
  "GetMatches a b =
     concat (map (\<lambda>match. subslice a (m_A match) (m_A match + m_Size match))
       (butlast (GetMatchingBlocks a b)))"


section \<open>The operating system and library calls\<close>

text \<open>A Go \<^verbatim>\<open>error\<close> value, with its message.\<close>

datatype error = Error string

text \<open>\<^verbatim>\<open>fs.FileMode\<close> and \<^verbatim>\<open>uint32\<close> are 32-bit words, \<^verbatim>\<open>int64\<close> a 64-bit word whose
  sentinel \<open>-1\<close> is the word of all ones; sums of sizes wrap as in Go.\<close>

type_synonym FileMode = "32 word"
type_synonym int64 = "64 word"
type_synonym uint32 = "32 word"

text \<open>What the sources read from the \<^verbatim>\<open>os.FileInfo\<close> that \<^verbatim>\<open>os.Lstat\<close> returns:
  \<^verbatim>\<open>Mode()\<close>, \<^verbatim>\<open>Size()\<close>, and the \<^verbatim>\<open>Uid\<close> and \<^verbatim>\<open>Gid\<close> of \<^verbatim>\<open>Sys().(*syscall.Stat_t)\<close>
  (the type assertion holds on the Unix systems the sources are built for).\<close>

record FileInfo =
  fi_Mode :: FileMode
  fi_Size :: int64
  fi_Uid :: uint32
  fi_Gid :: uint32

text \<open>The mode bits of Go's \<^verbatim>\<open>io/fs\<close>: \<^verbatim>\<open>ModeDir = 1 << 31\<close>, \<^verbatim>\<open>ModeSymlink = 1 << 27\<close>;
  \<^verbatim>\<open>IsDir()\<close> tests the first.\<close>

definition ModeDir :: FileMode where
  "ModeDir = push_bit 31 1"

definition ModeSymlink :: FileMode where
  "ModeSymlink = push_bit 27 1"

definition IsDir :: "FileInfo \<Rightarrow> bool" where
  "IsDir info \<longleftrightarrow> fi_Mode info AND ModeDir \<noteq> 0"

text \<open>One call of the callback by \<^verbatim>\<open>filepath.Walk\<close>: the path, the \<^verbatim>\<open>FileInfo\<close>
  (\<^verbatim>\<open>nil\<close> when \<^verbatim>\<open>Lstat\<close> of the path failed) and the error met at the path, if any.\<close>

record WalkVisit =
  wv_path :: string
  wv_info :: "FileInfo option"
  wv_err :: "error option"

text \<open>The calls the sources make outside the repository's three files, as functions of the
  path: \<^verbatim>\<open>os.Lstat\<close>, \<^verbatim>\<open>os.Readlink\<close>, \<^verbatim>\<open>ioutil.ReadFile\<close>, \<^verbatim>\<open>ioutil.ReadDir\<close> (the
  names of the entries), the sequence of visits \<^verbatim>\<open>filepath.Walk\<close> makes from a root as long
  as the callback returns \<^verbatim>\<open>nil\<close>, \<^verbatim>\<open>pkgutil.IsTar\<close> (declared in a file of the repository
  that is not among the sources) and \<^verbatim>\<open>filepath.Join\<close>. The filesystem does not change
  during a comparison.\<close>

record world =
  Lstat :: "string \<Rightarrow> error + FileInfo"
  Readlink :: "string \<Rightarrow> error + string"
  ReadFile :: "string \<Rightarrow> error + string"
  ReadDir :: "string \<Rightarrow> error + string list"
  WalkVisits :: "string \<Rightarrow> WalkVisit list"
  IsTar :: "string \<Rightarrow> bool"
  Join :: "string \<Rightarrow> string \<Rightarrow> string"

text \<open>\<^verbatim>\<open>filepath.Walk(root, fn)\<close> of the Go library: it hands every visit to the callback
  and returns the first non-\<^verbatim>\<open>nil\<close> error the callback returns, \<^verbatim>\<open>nil\<close> when there is
  none. Errors that arise while walking are only passed to the callback. The callbacks of
  the sources never return \<^verbatim>\<open>SkipDir\<close>. The state \<open>s\<close> is the variable the callback
  closes over.\<close>

fun filepath_Walk :: "(WalkVisit \<Rightarrow> 's \<Rightarrow> 's \<times> 'e option) \<Rightarrow> WalkVisit list \<Rightarrow> 's \<Rightarrow> 's \<times> 'e option" where
  "filepath_Walk fn [] s = (s, None)"
| "filepath_Walk fn (v # vs) s =
     (case fn v s of
        (s', Some e) \<Rightarrow> (s', Some e)
      | (s', None) \<Rightarrow> filepath_Walk fn vs s')"

section \<open>\<^verbatim>\<open>pkg/util/fs_utils.go\<close>\<close>

record Directory =
  Root :: string
  Content :: "string list"

record DirectoryEntry =
  de_Name :: string
  de_Size :: int64

record DirectoryMetaEntry =
  dme_Name :: string
  dme_Mode :: FileMode
  dme_UID :: uint32
  dme_GID :: uint32

text \<open>\<^verbatim>\<open>getDirectorySize\<close>: the callback calls \<^verbatim>\<open>info.IsDir()\<close> before it looks at the
  error, so a visit with a \<^verbatim>\<open>nil\<close> \<^verbatim>\<open>FileInfo\<close> is a nil dereference: the walk stops
  there and the function panics (\<open>None\<close>). Otherwise the callback returns the error it
  was given.\<close>

datatype stop = Returned error | NilDereference

definition getDirectorySize :: "world \<Rightarrow> string \<Rightarrow> (int64 \<times> error option) option" where
  "getDirectorySize w path =
     (case filepath_Walk
         (\<lambda>v sz. case wv_info v of
              None \<Rightarrow> (sz, Some NilDereference)
            | Some info \<Rightarrow>
                (if \<not> IsDir info then sz + fi_Size info else sz, map_option Returned (wv_err v)))
         (WalkVisits w path) 0 of
        (sz, Some NilDereference) \<Rightarrow> None
      | (sz, Some (Returned err)) \<Rightarrow> Some (sz, Some err)
      | (sz, None) \<Rightarrow> Some (sz, None))"

text \<open>\<^verbatim>\<open>GetSize\<close>: \<open>-1\<close> when \<^verbatim>\<open>Lstat\<close> fails; a directory's size is the sum
  \<^verbatim>\<open>getDirectorySize\<close> reached, whatever its error; \<open>None\<close> is the panic above.\<close>

definition GetSize :: "world \<Rightarrow> string \<Rightarrow> int64 option" where
  "GetSize w path =
     (case Lstat w path of
        Inl err \<Rightarrow> Some (- 1)
      | Inr stat \<Rightarrow>
          if IsDir stat
          then (case getDirectorySize w path of
                  None \<Rightarrow> None
                | Some (sz, err) \<Rightarrow> Some sz)
          else Some (fi_Size stat))"

text \<open>\<^verbatim>\<open>strings.TrimPrefix\<close>.\<close>

definition TrimPrefix :: "string \<Rightarrow> string \<Rightarrow> string" where
  "TrimPrefix s pre = (if take (length pre) s = pre then drop (length pre) s else s)"

text \<open>\<^verbatim>\<open>GetDirectory\<close>. In the deep branch the callback \<^verbatim>\<open>walkFn\<close> appends the trimmed
  path when it is not empty and always returns \<^verbatim>\<open>nil\<close>; the error returned is the one
  \<^verbatim>\<open>filepath.Walk\<close> returns. In the shallow branch a \<^verbatim>\<open>ReadDir\<close> error is returned with the
  directory as built so far.\<close>

definition GetDirectory :: "world \<Rightarrow> string \<Rightarrow> bool \<Rightarrow> Directory \<times> error option" where
  "GetDirectory w path deep =
     (if deep
      then (case filepath_Walk
                 (\<lambda>v content.
                    let newContent = TrimPrefix (wv_path v) path in
                    (if newContent \<noteq> [] then content @ [newContent] else content, None))
                 (WalkVisits w path) [] of
              (content, err) \<Rightarrow> (\<lparr>Root = path, Content = content\<rparr>, err))
      else (case ReadDir w path of
              Inl err \<Rightarrow> (\<lparr>Root = path, Content = []\<rparr>, Some err)
            | Inr contents \<Rightarrow>
                (\<lparr>Root = path, Content = map (\<lambda>file. ''/'' @ file) contents\<rparr>, None)))"

text \<open>\<^verbatim>\<open>CreateDirectoryEntries\<close>: one entry per name, in order; \<open>None\<close> when
  \<^verbatim>\<open>GetSize\<close> panics.\<close>

fun CreateDirectoryEntries :: "world \<Rightarrow> string \<Rightarrow> string list \<Rightarrow> DirectoryEntry list option" where
  "CreateDirectoryEntries w root [] = Some []"
| "CreateDirectoryEntries w root (name # entryNames) =
     (case GetSize w (Join w root name) of
        None \<Rightarrow> None
      | Some sz \<Rightarrow>
          (case CreateDirectoryEntries w root entryNames of
             None \<Rightarrow> None
           | Some entries \<Rightarrow> Some (\<lparr>de_Name = name, de_Size = sz\<rparr> # entries)))"

text \<open>\<^verbatim>\<open>CreateDirectoryMetaEntries\<close>: the loop, with the entries appended so far; the first
  \<^verbatim>\<open>Lstat\<close> error returns \<^verbatim>\<open>nil, err\<close>.\<close>

fun CreateDirectoryMetaEntries_from ::
  "world \<Rightarrow> string \<Rightarrow> string list \<Rightarrow> DirectoryMetaEntry list \<Rightarrow> DirectoryMetaEntry list \<times> error option" where
  "CreateDirectoryMetaEntries_from w root [] entries = (entries, None)"
| "CreateDirectoryMetaEntries_from w root (name # entryNames) entries =
     (case Lstat w (Join w root name) of
        Inl err \<Rightarrow> ([], Some err)
      | Inr fstat \<Rightarrow>
          CreateDirectoryMetaEntries_from w root entryNames
            (entries @ [\<lparr>dme_Name = name, dme_Mode = fi_Mode fstat,
                          dme_UID = fi_Uid fstat, dme_GID = fi_Gid fstat\<rparr>]))"

definition CreateDirectoryMetaEntries ::
  "world \<Rightarrow> string \<Rightarrow> string list \<Rightarrow> DirectoryMetaEntry list \<times> error option" where
  "CreateDirectoryMetaEntries w root entryNames = CreateDirectoryMetaEntries_from w root entryNames []"

definition CheckSameSymlink :: "world \<Rightarrow> string \<Rightarrow> string \<Rightarrow> bool \<times> error option" where
  "CheckSameSymlink w f1name f2name =
     (case Readlink w f1name of
        Inl err \<Rightarrow> (False, Some err)
      | Inr link1 \<Rightarrow>
          (case Readlink w f2name of
             Inl err \<Rightarrow> (False, Some err)
           | Inr link2 \<Rightarrow> (link1 = link2, None)))"

definition CheckSameFile :: "world \<Rightarrow> string \<Rightarrow> string \<Rightarrow> bool \<times> error option" where
  "CheckSameFile w f1name f2name =
     (case Lstat w f1name of
        Inl err \<Rightarrow> (False, Some err)
      | Inr f1stat \<Rightarrow>
          (case Lstat w f2name of
             Inl err \<Rightarrow> (False, Some err)
           | Inr f2stat \<Rightarrow>
               if fi_Size f1stat \<noteq> fi_Size f2stat then (False, None)
               else (case ReadFile w f1name of
                       Inl err \<Rightarrow> (False, Some err)
                     | Inr f1 \<Rightarrow>
                         (case ReadFile w f2name of
                            Inl err \<Rightarrow> (False, Some err)
                          | Inr f2 \<Rightarrow> if f1 \<noteq> f2 then (False, None) else (True, None)))))"


section \<open>\<^verbatim>\<open>util/output_text_utils.go\<close>: the two diff engines\<close>

record EntryDiff =
  ed_Name :: string
  ed_Size1 :: int64
  ed_Size2 :: int64

record MetaEntryDiff =
  med_Name :: string
  med_Mode1 :: FileMode
  med_UID1 :: uint32
  med_GID1 :: uint32
  med_Mode2 :: FileMode
  med_UID2 :: uint32
  med_GID2 :: uint32

record DirDiff =
  dd_Adds :: "DirectoryEntry list"
  dd_Dels :: "DirectoryEntry list"
  dd_Mods :: "EntryDiff list"

record MetaDirDiff =
  mdd_Adds :: "DirectoryMetaEntry list"
  mdd_Dels :: "DirectoryMetaEntry list"
  mdd_Mods :: "MetaEntryDiff list"

definition GetAddedEntries :: "Directory \<Rightarrow> Directory \<Rightarrow> string list" where
  "GetAddedEntries d1 d2 = GetAdditions (Content d1) (Content d2)"

definition GetDeletedEntries :: "Directory \<Rightarrow> Directory \<Rightarrow> string list" where
  "GetDeletedEntries d1 d2 = GetDeletions (Content d1) (Content d2)"

text \<open>One iteration of the loop of \<^verbatim>\<open>GetModifiedMetaEntries\<close>: whether \<open>f\<close> is appended
  to \<^verbatim>\<open>modified\<close>. A failing \<^verbatim>\<open>Lstat\<close> is logged and the loop continues.\<close>

definition metaEntryModified :: "world \<Rightarrow> Directory \<Rightarrow> Directory \<Rightarrow> string \<Rightarrow> bool" where
  "metaEntryModified w d1 d2 f =
     (let f1path = Root d1 @ f; f2path = Root d2 @ f in
      case Lstat w f1path of
        Inl err \<Rightarrow> False
      | Inr f1stat \<Rightarrow>
          (case Lstat w f2path of
             Inl err \<Rightarrow> False
           | Inr f2stat \<Rightarrow>
               if fi_Mode f1stat \<noteq> fi_Mode f2stat then True
               else if fi_Uid f1stat \<noteq> fi_Uid f2stat \<or> fi_Gid f1stat \<noteq> fi_Gid f2stat then True
               else False))"

definition GetModifiedMetaEntries :: "world \<Rightarrow> Directory \<Rightarrow> Directory \<Rightarrow> string list" where
  "GetModifiedMetaEntries w d1 d2 =
     (let filematches = GetMatches (Content d1) (Content d2) in
      foldl (\<lambda>modified f. if metaEntryModified w d1 d2 f then modified @ [f] else modified)
        [] filematches)"

text \<open>One iteration of the loop of \<^verbatim>\<open>GetModifiedEntries\<close>: whether \<open>f\<close> is appended to
  \<^verbatim>\<open>modified\<close>, with the branches in the order of the source: both \<^verbatim>\<open>Lstat\<close> calls, the
  symlink test on both modes, \<^verbatim>\<open>IsTar\<close> on the first path, and the file comparison for
  what is not a directory.\<close>

definition entryModified :: "world \<Rightarrow> Directory \<Rightarrow> Directory \<Rightarrow> string \<Rightarrow> bool" where
  "entryModified w d1 d2 f =
     (let f1path = Root d1 @ f; f2path = Root d2 @ f in
      case Lstat w f1path of
        Inl err \<Rightarrow> False
      | Inr f1stat \<Rightarrow>
          (case Lstat w f2path of
             Inl err \<Rightarrow> False
           | Inr f2stat \<Rightarrow>
               if fi_Mode f1stat AND ModeSymlink \<noteq> 0 \<and> fi_Mode f2stat AND ModeSymlink \<noteq> 0
               then (case CheckSameSymlink w f1path f2path of
                       (same, Some err) \<Rightarrow> False
                     | (same, None) \<Rightarrow> \<not> same)
               else if IsTar w f1path
               then fi_Size f1stat \<noteq> fi_Size f2stat
               else if \<not> IsDir f1stat
               then (case CheckSameFile w f1path f2path of
                       (same, Some err) \<Rightarrow> False
                     | (same, None) \<Rightarrow> \<not> same)
               else False))"

definition GetModifiedEntries :: "world \<Rightarrow> Directory \<Rightarrow> Directory \<Rightarrow> string list" where
  "GetModifiedEntries w d1 d2 =
     (let filematches = GetMatches (Content d1) (Content d2) in
      foldl (\<lambda>modified f. if entryModified w d1 d2 f then modified @ [f] else modified)
        [] filematches)"

text \<open>\<^verbatim>\<open>createEntryDiffs\<close> and \<^verbatim>\<open>createMetaEntryDiffs\<close>.\<close>

fun createEntryDiffs :: "world \<Rightarrow> string \<Rightarrow> string \<Rightarrow> string list \<Rightarrow> EntryDiff list option" where
  "createEntryDiffs w root1 root2 [] = Some []"
| "createEntryDiffs w root1 root2 (name # entryNames) =
     (case GetSize w (Join w root1 name) of
        None \<Rightarrow> None
      | Some size1 \<Rightarrow>
          (case GetSize w (Join w root2 name) of
             None \<Rightarrow> None
           | Some size2 \<Rightarrow>
               (case createEntryDiffs w root1 root2 entryNames of
                  None \<Rightarrow> None
                | Some entries \<Rightarrow>
                    Some (\<lparr>ed_Name = name, ed_Size1 = size1, ed_Size2 = size2\<rparr> # entries))))"

fun createMetaEntryDiffs_from ::
  "world \<Rightarrow> string \<Rightarrow> string \<Rightarrow> string list \<Rightarrow> MetaEntryDiff list \<Rightarrow> MetaEntryDiff list \<times> error option" where
  "createMetaEntryDiffs_from w root1 root2 [] entries = (entries, None)"
| "createMetaEntryDiffs_from w root1 root2 (name # entryNames) entries =
     (case Lstat w (Join w root1 name) of
        Inl err \<Rightarrow> ([], Some err)
      | Inr f1stat \<Rightarrow>
          (case Lstat w (Join w root2 name) of
             Inl err \<Rightarrow> ([], Some err)
           | Inr f2stat \<Rightarrow>
               createMetaEntryDiffs_from w root1 root2 entryNames
                 (entries @ [\<lparr>med_Name = name,
                     med_Mode1 = fi_Mode f1stat, med_UID1 = fi_Uid f1stat, med_GID1 = fi_Gid f1stat,
                     med_Mode2 = fi_Mode f2stat, med_UID2 = fi_Uid f2stat, med_GID2 = fi_Gid f2stat\<rparr>])))"

definition createMetaEntryDiffs ::
  "world \<Rightarrow> string \<Rightarrow> string \<Rightarrow> string list \<Rightarrow> MetaEntryDiff list \<times> error option" where
  "createMetaEntryDiffs w root1 root2 entryNames = createMetaEntryDiffs_from w root1 root2 entryNames []"

text \<open>\<^verbatim>\<open>DiffDirectory\<close>. \<^verbatim>\<open>sort.Strings\<close> sorts by the byte order of Go strings, the
  lexicographic order of \<open>string\<close> here. \<open>None\<close> is the panic of \<^verbatim>\<open>GetSize\<close>.\<close>

definition DiffDirectory :: "world \<Rightarrow> Directory \<Rightarrow> Directory \<Rightarrow> (DirDiff \<times> bool) option" where
  "DiffDirectory w d1 d2 =
     (let adds = sort (GetAddedEntries d1 d2) in
      case CreateDirectoryEntries w (Root d2) adds of
        None \<Rightarrow> None
      | Some addedEntries \<Rightarrow>
          (let dels = sort (GetDeletedEntries d1 d2) in
           case CreateDirectoryEntries w (Root d1) dels of
             None \<Rightarrow> None
           | Some deletedEntries \<Rightarrow>
               (let mods = sort (GetModifiedEntries w d1 d2) in
                case createEntryDiffs w (Root d1) (Root d2) mods of
                  None \<Rightarrow> None
                | Some modifiedEntries \<Rightarrow>
                    (let same = (if length adds = 0 \<and> length dels = 0 \<and> length mods = 0
                                 then True else False) in
                     Some (\<lparr>dd_Adds = addedEntries, dd_Dels = deletedEntries,
                             dd_Mods = modifiedEntries\<rparr>, same)))))"

text \<open>\<^verbatim>\<open>DiffDirectoryMetadata\<close> returns the Go triple \<^verbatim>\<open>(MetaDirDiff, bool, error)\<close>;
  \<^verbatim>\<open>MetaDirDiff{}\<close> is the zero value.\<close>

definition MetaDirDiff_zero :: MetaDirDiff where
  "MetaDirDiff_zero = \<lparr>mdd_Adds = [], mdd_Dels = [], mdd_Mods = []\<rparr>"

definition DiffDirectoryMetadata ::
  "world \<Rightarrow> Directory \<Rightarrow> Directory \<Rightarrow> MetaDirDiff \<times> bool \<times> error option" where
  "DiffDirectoryMetadata w d1 d2 =
     (let adds = sort (GetAddedEntries d1 d2) in
      case CreateDirectoryMetaEntries w (Root d2) adds of
        (addedEntries, Some err) \<Rightarrow> (MetaDirDiff_zero, False, Some err)
      | (addedEntries, None) \<Rightarrow>
          (let dels = sort (GetDeletedEntries d1 d2) in
           case CreateDirectoryMetaEntries w (Root d1) dels of
             (deletedEntries, Some err) \<Rightarrow> (MetaDirDiff_zero, False, Some err)
           | (deletedEntries, None) \<Rightarrow>
               (let mods = sort (GetModifiedMetaEntries w d1 d2) in
                case createMetaEntryDiffs w (Root d1) (Root d2) mods of
                  (modifiedEntries, Some err) \<Rightarrow> (MetaDirDiff_zero, False, Some err)
                | (modifiedEntries, None) \<Rightarrow>
                    (let same = (if length adds = 0 \<and> length dels = 0 \<and> length mods = 0
                                 then True else False) in
                     (\<lparr>mdd_Adds = addedEntries, mdd_Dels = deletedEntries,
                       mdd_Mods = modifiedEntries\<rparr>, same, None)))))"

section \<open>\<^verbatim>\<open>differs/filemeta_diff.go\<close>\<close>

definition diffImageFileMetadata :: "world \<Rightarrow> string \<Rightarrow> string \<Rightarrow> MetaDirDiff \<times> error option" where
  "diffImageFileMetadata w img1 img2 =
     (case GetDirectory w img1 True of
        (img1Dir, Some err) \<Rightarrow> (MetaDirDiff_zero, Some err)
      | (img1Dir, None) \<Rightarrow>
          (case GetDirectory w img2 True of
             (img2Dir, Some err) \<Rightarrow> (MetaDirDiff_zero, Some err)
           | (img2Dir, None) \<Rightarrow>
               (case DiffDirectoryMetadata w img1Dir img2Dir of
                  (diff, same, Some err) \<Rightarrow> (MetaDirDiff_zero, Some err)
                | (diff, same, None) \<Rightarrow> (diff, None))))"

text \<open>The fields of \<^verbatim>\<open>pkgutil.Image\<close> and of its layers that the sources read, and the
  result structs with the fields the struct literal of \<^verbatim>\<open>Diff\<close> sets (the types are declared
  outside the sources). On an error \<^verbatim>\<open>Diff\<close> returns the zero
  \<^verbatim>\<open>MultipleDirDiffResult\<close>.\<close>

record Layer =
  layer_FSPath :: string

record Image =
  Source :: string
  FSPath :: string
  Layers :: "Layer list"

record MultipleMetaDirDiff =
  DirDiffs :: "MetaDirDiff list"

record MultipleMetaDirDiffResult =
  Image1 :: string
  Image2 :: string
  DiffType :: string
  Diff :: MultipleMetaDirDiff

datatype Result = MultipleDirDiffResult_zero | MultipleMetaDirDiffResult_of MultipleMetaDirDiffResult

text \<open>The loop of \<^verbatim>\<open>FileMetaLayerAnalyzer.Diff\<close> over \<^verbatim>\<open>image1.Layers\<close>, with the index and
  the diffs appended so far; then \<^verbatim>\<open>Diff\<close> itself (the log lines have no effect on the
  result).\<close>

fun layers_loop ::
  "world \<Rightarrow> Layer list \<Rightarrow> Image \<Rightarrow> nat \<Rightarrow> MetaDirDiff list \<Rightarrow> MetaDirDiff list \<times> error option" where
  "layers_loop w [] image2 index dirDiffs = (dirDiffs, None)"
| "layers_loop w (layer # rest) image2 index dirDiffs =
     (if index \<ge> length (Layers image2)
      then layers_loop w rest image2 (index + 1) dirDiffs
      else (let layer2 = Layers image2 ! index in
            case diffImageFileMetadata w (layer_FSPath layer) (layer_FSPath layer2) of
              (diff, Some err) \<Rightarrow> (dirDiffs, Some err)
            | (diff, None) \<Rightarrow> layers_loop w rest image2 (index + 1) (dirDiffs @ [diff])))"

definition FileMetaLayerAnalyzer_Diff :: "world \<Rightarrow> Image \<Rightarrow> Image \<Rightarrow> Result \<times> error option" where
  "FileMetaLayerAnalyzer_Diff w image1 image2 =
     (case layers_loop w (Layers image1) image2 0 [] of
        (dirDiffs, Some err) \<Rightarrow> (MultipleDirDiffResult_zero, Some err)
      | (dirDiffs, None) \<Rightarrow>
          (MultipleMetaDirDiffResult_of
             \<lparr>Image1 = Source image1, Image2 = Source image2, DiffType = ''FileMetaLayer'',
              Diff = \<lparr>DirDiffs = dirDiffs\<rparr>\<rparr>, None))"


section \<open>\<^verbatim>\<open>util/output_text_utils.go\<close>: \<^verbatim>\<open>stringifyMetaEntryDiffs\<close>\<close>

text \<open>\<^verbatim>\<open>fmt.Sprintf("mode=%#o uid=%d gid=%d", mode, uid, gid)\<close>: the verbs \<^verbatim>\<open>%#o\<close> and
  \<^verbatim>\<open>%d\<close> print the unsigned values in octal with a leading \<^verbatim>\<open>0\<close> and in decimal.\<close>

definition digit_char :: "nat \<Rightarrow> char" where
  "digit_char d = ''0123456789'' ! d"

function fmt_digits :: "nat \<Rightarrow> nat \<Rightarrow> string" where
  "fmt_digits base n =
     (if n < base \<or> base < 2 then [digit_char n]
      else fmt_digits base (n div base) @ [digit_char (n mod base)])"
  by pat_completeness auto
termination
  by (relation "measure (\<lambda>(base, n). n)") auto

declare fmt_digits.simps [simp del]

definition fmt_d :: "nat \<Rightarrow> string" where
  "fmt_d n = fmt_digits 10 n"

definition fmt_sharp_o :: "nat \<Rightarrow> string" where
  "fmt_sharp_o n = (if n = 0 then ''0'' else ''0'' @ fmt_digits 8 n)"

definition stringifyMeta :: "FileMode \<Rightarrow> uint32 \<Rightarrow> uint32 \<Rightarrow> string" where
  "stringifyMeta mode uid gid =
     ''mode='' @ fmt_sharp_o (unat mode) @ '' uid='' @ fmt_d (unat uid) @ '' gid='' @ fmt_d (unat gid)"

record StrMetaEntryDiff =
  smed_Name :: string
  smed_Meta1 :: string
  smed_Meta2 :: string

fun stringifyMetaEntryDiffs_from :: "MetaEntryDiff list \<Rightarrow> StrMetaEntryDiff list \<Rightarrow> StrMetaEntryDiff list" where
  "stringifyMetaEntryDiffs_from [] strEntries = strEntries"
| "stringifyMetaEntryDiffs_from (entry # entries) strEntries =
     (let strEntry = \<lparr>smed_Name = med_Name entry,
                       smed_Meta1 = stringifyMeta (med_Mode1 entry) (med_UID1 entry) (med_GID1 entry),
                       smed_Meta2 = stringifyMeta (med_Mode1 entry) (med_UID1 entry) (med_GID1 entry)\<rparr>
      in stringifyMetaEntryDiffs_from entries (strEntries @ [strEntry]))"

definition stringifyMetaEntryDiffs :: "MetaEntryDiff list \<Rightarrow> StrMetaEntryDiff list" where
  "stringifyMetaEntryDiffs entries = stringifyMetaEntryDiffs_from entries []"

section \<open>The reconstruction law\<close>

text \<open>A span is a start index together with the elements it covers. \<open>interleave\<close> merges two
  span lists in the order of their start indices.\<close>

fun interleave :: "(nat \<times> 'a) list \<Rightarrow> (nat \<times> 'a) list \<Rightarrow> (nat \<times> 'a) list" where
  "interleave [] ys = ys"
| "interleave xs [] = xs"
| "interleave (x # xs) (y # ys) =
     (if fst x \<le> fst y then x # interleave xs (y # ys) else y # interleave (x # xs) ys)"

fun blocks_ok :: "nat \<Rightarrow> nat \<Rightarrow> nat \<Rightarrow> nat \<Rightarrow> Match list \<Rightarrow> bool" where
  "blocks_ok i j ahi bhi [] = (i \<le> ahi \<and> j \<le> bhi)"
| "blocks_ok i j ahi bhi (m # ms) =
     (i \<le> m_A m \<and> j \<le> m_B m \<and> 0 < m_Size m \<and>
      blocks_ok (m_A m + m_Size m) (m_B m + m_Size m) ahi bhi ms)"

lemma blocks_ok_bounds: "blocks_ok i j ahi bhi ms \<Longrightarrow> i \<le> ahi \<and> j \<le> bhi"
  by (induction ms arbitrary: i j) fastforce+

lemma blocks_ok_lower:
  "blocks_ok p q ahi bhi ms \<Longrightarrow> i \<le> p \<Longrightarrow> j \<le> q \<Longrightarrow> blocks_ok i j ahi bhi ms"
  by (cases ms) auto

lemma blocks_ok_append:
  "blocks_ok i j p q xs \<Longrightarrow> blocks_ok p q ahi bhi ys \<Longrightarrow> blocks_ok i j ahi bhi (xs @ ys)"
proof (induction xs arbitrary: i j)
  case Nil
  then show ?case by (simp add: blocks_ok_lower)
next
  case (Cons x xs)
  then show ?case by simp
qed

lemma match_blocks_ok:
  "alo \<le> ahi \<Longrightarrow> blo \<le> bhi \<Longrightarrow> blocks_ok alo blo ahi bhi (match_blocks a b alo ahi blo bhi)"
proof (induction a b alo ahi blo bhi rule: match_blocks.induct)
  case (1 a b alo ahi blo bhi)
  define m where "m = findLongestMatch a b alo ahi blo bhi"
  show ?case
  proof (cases "0 < m_Size m")
    case False
    then show ?thesis using 1(3,4) by (simp add: match_blocks.simps [of a b alo ahi blo bhi] m_def)
  next
    case True
    have w: "in_window alo ahi blo bhi m"
      using findLongestMatch_window True unfolding m_def by blast
    have left: "blocks_ok alo blo (m_A m) (m_B m) (match_blocks a b alo (m_A m) blo (m_B m))"
      using 1(1) [OF m_def True] w by (simp add: in_window_def)
    have right: "blocks_ok (m_A m + m_Size m) (m_B m + m_Size m) ahi bhi
       (match_blocks a b (m_A m + m_Size m) ahi (m_B m + m_Size m) bhi)"
      using 1(2) [OF m_def True] w by (simp add: in_window_def)
    have mid: "blocks_ok (m_A m) (m_B m) ahi bhi
       (m # match_blocks a b (m_A m + m_Size m) ahi (m_B m + m_Size m) bhi)"
      using right True by simp
    have "blocks_ok alo blo ahi bhi (match_blocks a b alo (m_A m) blo (m_B m) @
       m # match_blocks a b (m_A m + m_Size m) ahi (m_B m + m_Size m) bhi)"
      by (rule blocks_ok_append [OF left mid])
    then show ?thesis
      using True by (simp add: match_blocks.simps [of a b alo ahi blo bhi] m_def [symmetric] Let_def)
  qed
qed


definition sentinel :: "string list \<Rightarrow> string list \<Rightarrow> Match" where
  "sentinel a b = \<lparr>m_A = length a, m_B = length b, m_Size = 0\<rparr>"

definition is_change_a :: "OpCode \<Rightarrow> bool" where
  "is_change_a c \<longleftrightarrow> oc_Tag c = CHR ''r'' \<or> oc_Tag c = CHR ''d''"

definition is_change_b :: "OpCode \<Rightarrow> bool" where
  "is_change_b c \<longleftrightarrow> oc_Tag c = CHR ''r'' \<or> oc_Tag c = CHR ''i''"

definition match_spans_a :: "string list \<Rightarrow> string list \<Rightarrow> (nat \<times> string list) list" where
  "match_spans_a a b =
     map (\<lambda>m. (m_A m, subslice a (m_A m) (m_A m + m_Size m))) (butlast (GetMatchingBlocks a b))"

definition match_spans_b :: "string list \<Rightarrow> string list \<Rightarrow> (nat \<times> string list) list" where
  "match_spans_b a b =
     map (\<lambda>m. (m_B m, subslice a (m_A m) (m_A m + m_Size m))) (butlast (GetMatchingBlocks a b))"

definition deletion_spans :: "string list \<Rightarrow> string list \<Rightarrow> (nat \<times> string list) list" where
  "deletion_spans a b =
     map (\<lambda>c. (oc_I1 c, subslice a (oc_I1 c) (oc_I2 c)))
       (filter is_change_a (concat (GetGroupedOpCodes0 a b)))"

definition addition_spans :: "string list \<Rightarrow> string list \<Rightarrow> (nat \<times> string list) list" where
  "addition_spans a b =
     map (\<lambda>c. (oc_J1 c, subslice b (oc_J1 c) (oc_J2 c)))
       (filter is_change_b (concat (GetGroupedOpCodes0 a b)))"

lemma concat_singletons: "concat (map (\<lambda>c. [c]) xs) = xs"
  by (induction xs) auto

lemma grouped_flat:
  "concat (GetGroupedOpCodes0 a b) = filter (\<lambda>c. oc_Tag c \<noteq> CHR ''e'') (GetOpCodes a b)"
  by (simp add: GetGroupedOpCodes0_def concat_singletons)

lemma concat_map_if: "concat (map (\<lambda>c. if P c then f c else []) xs) = concat (map f (filter P xs))"
  by (induction xs) auto

lemma GetMatches_spans: "GetMatches a b = concat (map snd (match_spans_a a b))"
  by (simp add: GetMatches_def match_spans_a_def comp_def)

lemma GetDeletions_spans: "GetDeletions a b = concat (map snd (deletion_spans a b))"
  by (simp add: GetDeletions_def deletion_spans_def comp_def concat_map_if is_change_a_def [abs_def])

lemma GetAdditions_spans: "GetAdditions a b = concat (map snd (addition_spans a b))"
  by (simp add: GetAdditions_def addition_spans_def comp_def concat_map_if is_change_b_def [abs_def])

lemma subslice_drop: "i \<le> k \<Longrightarrow> subslice xs i k @ drop k xs = drop i xs"
proof -
  assume "i \<le> k"
  then have "drop k xs = drop (k - i) (drop i xs)" by simp
  then show ?thesis unfolding subslice_def by (metis append_take_drop_id)
qed

lemma subslice_to_end: "subslice xs i (length xs) = drop i xs"
  by (simp add: subslice_def)

lemma interleave_Nil2 [simp]: "interleave xs [] = xs"
  by (cases xs) auto

lemma interleave_head:
  "(\<forall>y \<in> set ys. fst x \<le> fst y) \<Longrightarrow> interleave (x # xs) ys = x # interleave xs ys"
  by (cases ys) auto

lemma interleave_head2:
  "fst y < fst x \<Longrightarrow> interleave (x # xs) (y # ys) = y # interleave (x # xs) ys"
  by simp

lemma opcodes_from_lower:
  "blocks_ok i j ahi bhi ms \<Longrightarrow> m_A s = ahi \<Longrightarrow> m_B s = bhi \<Longrightarrow>
   c \<in> set (opcodes_from i j (ms @ [s])) \<Longrightarrow> i \<le> oc_I1 c \<and> j \<le> oc_J1 c"
proof (induction ms arbitrary: i j)
  case Nil
  then show ?case by (auto simp: Let_def split: if_splits)
next
  case (Cons m ms)
  from Cons.prems(1) have ok: "blocks_ok (m_A m + m_Size m) (m_B m + m_Size m) ahi bhi ms"
    and le: "i \<le> m_A m" "j \<le> m_B m" by simp_all
  from Cons.prems(4) consider
    (chg) "oc_I1 c = i" "oc_J1 c = j"
  | (eq) "oc_I1 c = m_A m" "oc_J1 c = m_B m"
  | (rest) "c \<in> set (opcodes_from (m_A m + m_Size m) (m_B m + m_Size m) (ms @ [s]))"
    by (auto simp: Let_def split: if_splits)
  then show ?case
  proof cases
    case chg then show ?thesis by simp
  next
    case eq then show ?thesis using le by simp
  next
    case rest
    from Cons.IH [OF ok Cons.prems(2,3) rest] le show ?thesis by simp
  qed
qed

definition dspans :: "string list \<Rightarrow> OpCode list \<Rightarrow> (nat \<times> string list) list" where
  "dspans a ops = map (\<lambda>c. (oc_I1 c, subslice a (oc_I1 c) (oc_I2 c))) (filter is_change_a ops)"

definition aspans :: "string list \<Rightarrow> OpCode list \<Rightarrow> (nat \<times> string list) list" where
  "aspans b ops = map (\<lambda>c. (oc_J1 c, subslice b (oc_J1 c) (oc_J2 c))) (filter is_change_b ops)"

lemma dspans_lower:
  "blocks_ok i j (length a) (length b) ms \<Longrightarrow>
   y \<in> set (dspans a (opcodes_from i j (ms @ [sentinel a b]))) \<Longrightarrow> i \<le> fst y"
  using opcodes_from_lower [of i j "length a" "length b" ms "sentinel a b"]
  by (auto simp: dspans_def sentinel_def)

lemma aspans_lower:
  "blocks_ok i j (length a) (length b) ms \<Longrightarrow>
   y \<in> set (aspans b (opcodes_from i j (ms @ [sentinel a b]))) \<Longrightarrow> j \<le> fst y"
  using opcodes_from_lower [of i j "length a" "length b" ms "sentinel a b"]
  by (auto simp: aspans_def sentinel_def)

lemma dspans_step:
  "0 < m_Size m \<Longrightarrow>
   dspans a (opcodes_from i j (m # rest)) =
     (if i < m_A m then [(i, subslice a i (m_A m))] else []) @
     dspans a (opcodes_from (m_A m + m_Size m) (m_B m + m_Size m) rest)"
  by (simp add: dspans_def is_change_a_def Let_def)

lemma aspans_step:
  "0 < m_Size m \<Longrightarrow>
   aspans b (opcodes_from i j (m # rest)) =
     (if j < m_B m then [(j, subslice b j (m_B m))] else []) @
     aspans b (opcodes_from (m_A m + m_Size m) (m_B m + m_Size m) rest)"
  by (simp add: aspans_def is_change_b_def Let_def)

lemma recon_a:
  "blocks_ok i j (length a) (length b) ms \<Longrightarrow>
   concat (map snd (interleave
      (map (\<lambda>m. (m_A m, subslice a (m_A m) (m_A m + m_Size m))) ms)
      (dspans a (opcodes_from i j (ms @ [sentinel a b]))))) = drop i a"
proof (induction ms arbitrary: i j)
  case Nil
  then show ?case
    by (auto simp: dspans_def is_change_a_def sentinel_def Let_def subslice_to_end)
next
  case (Cons m ms)
  let ?x = "(m_A m, subslice a (m_A m) (m_A m + m_Size m))"
  let ?M = "map (\<lambda>m. (m_A m, subslice a (m_A m) (m_A m + m_Size m))) ms"
  let ?R = "dspans a (opcodes_from (m_A m + m_Size m) (m_B m + m_Size m) (ms @ [sentinel a b]))"
  from Cons.prems have ok: "blocks_ok (m_A m + m_Size m) (m_B m + m_Size m) (length a) (length b) ms"
    and le: "i \<le> m_A m" and pos: "0 < m_Size m" by simp_all
  have low: "\<forall>y \<in> set ?R. fst ?x \<le> fst y"
    using dspans_lower [OF ok] by fastforce
  have tail: "concat (map snd (interleave (?x # ?M) ?R)) = drop (m_A m) a"
    using interleave_head [OF low, of ?M] Cons.IH [OF ok]
    by (simp add: subslice_drop)
  have step: "dspans a (opcodes_from i j ((m # ms) @ [sentinel a b])) =
      (if i < m_A m then [(i, subslice a i (m_A m))] else []) @ ?R"
    using dspans_step [OF pos, of a i j "ms @ [sentinel a b]"] by simp
  show ?case
  proof (cases "i < m_A m")
    case True
    have "interleave (?x # ?M) ((i, subslice a i (m_A m)) # ?R)
          = (i, subslice a i (m_A m)) # interleave (?x # ?M) ?R"
      using True by simp
    then show ?thesis
      unfolding step using True tail le by (simp add: subslice_drop)
  next
    case False
    then have "i = m_A m" using le by simp
    then show ?thesis unfolding step using tail by simp
  qed
qed


definition is_match :: "string list \<Rightarrow> string list \<Rightarrow> Match \<Rightarrow> bool" where
  "is_match a b m \<longleftrightarrow>
     subslice a (m_A m) (m_A m + m_Size m) = subslice b (m_B m) (m_B m + m_Size m)"

lemma run_at_is_match: "is_match a b (run_at a b ahi bhi i j)"
proof -
  define k where "k = common_len (subslice a i ahi) (subslice b j bhi)"
  have ka: "k \<le> ahi - i"
    using common_len_le1 [of "subslice a i ahi" "subslice b j bhi"] by (simp add: subslice_def k_def)
  have kb: "k \<le> bhi - j"
    using common_len_le2 [of "subslice a i ahi" "subslice b j bhi"] by (simp add: subslice_def k_def)
  have "take k (drop i a) = take k (subslice a i ahi)"
    using ka by (simp add: subslice_def min_def)
  also have "\<dots> = take k (subslice b j bhi)"
    unfolding k_def by (rule common_len_take)
  also have "\<dots> = take k (drop j b)"
    using kb by (simp add: subslice_def min_def)
  finally show ?thesis
    by (simp add: is_match_def run_at_def subslice_def k_def)
qed

lemma findLongestMatch_is_match: "is_match a b (findLongestMatch a b alo ahi blo bhi)"
  using findLongestMatch_cases [of a b alo ahi blo bhi] run_at_is_match [of a b ahi bhi]
  by (auto simp: is_match_def subslice_def)

lemma match_blocks_is_match:
  "m \<in> set (match_blocks a b alo ahi blo bhi) \<Longrightarrow> is_match a b m"
proof (induction a b alo ahi blo bhi rule: match_blocks.induct)
  case (1 a b alo ahi blo bhi)
  define f where "f = findLongestMatch a b alo ahi blo bhi"
  show ?case
  proof (cases "0 < m_Size f")
    case False
    then show ?thesis using 1(3) by (simp add: match_blocks.simps [of a b alo ahi blo bhi] f_def)
  next
    case True
    from 1(3) True consider
      (l) "m \<in> set (match_blocks a b alo (m_A f) blo (m_B f))"
    | (c) "m = f"
    | (r) "m \<in> set (match_blocks a b (m_A f + m_Size f) ahi (m_B f + m_Size f) bhi)"
      by (auto simp: match_blocks.simps [of a b alo ahi blo bhi] f_def [symmetric] Let_def)
    then show ?thesis
    proof cases
      case l then show ?thesis using 1(1) [OF f_def True] by simp
    next
      case c then show ?thesis using findLongestMatch_is_match f_def by simp
    next
      case r then show ?thesis using 1(2) [OF f_def True] by simp
    qed
  qed
qed

lemma recon_b:
  "blocks_ok i j (length a) (length b) ms \<Longrightarrow> (\<forall>m \<in> set ms. is_match a b m) \<Longrightarrow>
   concat (map snd (interleave
      (map (\<lambda>m. (m_B m, subslice a (m_A m) (m_A m + m_Size m))) ms)
      (aspans b (opcodes_from i j (ms @ [sentinel a b]))))) = drop j b"
proof (induction ms arbitrary: i j)
  case Nil
  then show ?case
    by (auto simp: aspans_def is_change_b_def sentinel_def Let_def subslice_to_end)
next
  case (Cons m ms)
  let ?x = "(m_B m, subslice a (m_A m) (m_A m + m_Size m))"
  let ?M = "map (\<lambda>m. (m_B m, subslice a (m_A m) (m_A m + m_Size m))) ms"
  let ?R = "aspans b (opcodes_from (m_A m + m_Size m) (m_B m + m_Size m) (ms @ [sentinel a b]))"
  from Cons.prems have ok: "blocks_ok (m_A m + m_Size m) (m_B m + m_Size m) (length a) (length b) ms"
    and le: "j \<le> m_B m" and pos: "0 < m_Size m" by simp_all
  from Cons.prems(2) have eq: "subslice a (m_A m) (m_A m + m_Size m) = subslice b (m_B m) (m_B m + m_Size m)"
    and rest: "\<forall>m \<in> set ms. is_match a b m" by (simp_all add: is_match_def)
  have low: "\<forall>y \<in> set ?R. fst ?x \<le> fst y"
    using aspans_lower [OF ok] by fastforce
  have tail: "concat (map snd (interleave (?x # ?M) ?R)) = drop (m_B m) b"
    using interleave_head [OF low, of ?M] Cons.IH [OF ok rest]
    by (simp add: eq subslice_drop)
  have step: "aspans b (opcodes_from i j ((m # ms) @ [sentinel a b])) =
      (if j < m_B m then [(j, subslice b j (m_B m))] else []) @ ?R"
    using aspans_step [OF pos, of b i j "ms @ [sentinel a b]"] by simp
  show ?case
  proof (cases "j < m_B m")
    case True
    have "interleave (?x # ?M) ((j, subslice b j (m_B m)) # ?R)
          = (j, subslice b j (m_B m)) # interleave (?x # ?M) ?R"
      using True by simp
    then show ?thesis
      unfolding step using True tail le by (simp add: subslice_drop)
  next
    case False
    then have "j = m_B m" using le by simp
    then show ?thesis unfolding step using tail by simp
  qed
qed

lemma blocks_ok_all: "blocks_ok 0 0 (length a) (length b) (match_blocks a b 0 (length a) 0 (length b))"
  by (rule match_blocks_ok) simp_all

lemma butlast_blocks: "butlast (GetMatchingBlocks a b) = match_blocks a b 0 (length a) 0 (length b)"
  by (simp add: GetMatchingBlocks_def)

lemma deletion_spans_eq:
  "deletion_spans a b = dspans a (opcodes_from 0 0 (match_blocks a b 0 (length a) 0 (length b) @ [sentinel a b]))"
proof -
  have "filter is_change_a (filter (\<lambda>c. oc_Tag c \<noteq> CHR ''e'') xs) = filter is_change_a xs" for xs
    by (induction xs) (auto simp: is_change_a_def)
  then show ?thesis
    by (simp add: deletion_spans_def dspans_def grouped_flat GetOpCodes_def GetMatchingBlocks_def sentinel_def)
qed

lemma addition_spans_eq:
  "addition_spans a b = aspans b (opcodes_from 0 0 (match_blocks a b 0 (length a) 0 (length b) @ [sentinel a b]))"
proof -
  have "filter is_change_b (filter (\<lambda>c. oc_Tag c \<noteq> CHR ''e'') xs) = filter is_change_b xs" for xs
    by (induction xs) (auto simp: is_change_b_def)
  then show ?thesis
    by (simp add: addition_spans_def aspans_def grouped_flat GetOpCodes_def GetMatchingBlocks_def sentinel_def)
qed

text \<open>
  Claim C1 (reconstruction law). For all string sequences \<open>a\<close> and \<open>b\<close>: merging by start
  index the spans of \<open>a\<close> that \<^verbatim>\<open>GetMatches\<close> collects (the blocks but the sentinel) with the
  spans of \<open>a\<close> that \<^verbatim>\<open>GetDeletions\<close> collects (the a-side of the delete and replace opcodes)
  and concatenating them gives \<open>a\<close> back; merging the matched runs, placed at their start in
  \<open>b\<close>, with the spans of \<open>b\<close> that \<^verbatim>\<open>GetAdditions\<close> collects (the b-side of the insert and
  replace opcodes) gives \<open>b\<close> back. The last four conjuncts say that the three functions return
  exactly the concatenation of these spans.
\<close>

theorem reconstruction_law:
  "concat (map snd (interleave (match_spans_a a b) (deletion_spans a b))) = a \<and>
   concat (map snd (interleave (match_spans_b a b) (addition_spans a b))) = b \<and>
   GetMatches a b = concat (map snd (match_spans_a a b)) \<and>
   GetMatches a b = concat (map snd (match_spans_b a b)) \<and>
   GetDeletions a b = concat (map snd (deletion_spans a b)) \<and>
   GetAdditions a b = concat (map snd (addition_spans a b))"
proof -
  have A: "concat (map snd (interleave (match_spans_a a b) (deletion_spans a b))) = a"
    using recon_a [OF blocks_ok_all, of a b]
    by (simp add: match_spans_a_def butlast_blocks deletion_spans_eq)
  have B: "concat (map snd (interleave (match_spans_b a b) (addition_spans a b))) = b"
    using recon_b [OF blocks_ok_all, of a b] match_blocks_is_match
    by (simp add: match_spans_b_def butlast_blocks addition_spans_eq)
  have C: "GetMatches a b = concat (map snd (match_spans_b a b))"
    by (simp add: GetMatches_def match_spans_b_def comp_def)
  show ?thesis
    using A B C GetMatches_spans GetDeletions_spans GetAdditions_spans by blast
qed

section \<open>How a matched candidate is classified\<close>

text \<open>The loops of \<^verbatim>\<open>GetModifiedEntries\<close> and \<^verbatim>\<open>GetModifiedMetaEntries\<close> keep the matched
  names their iteration appends, in order.\<close>

lemma foldl_append_if:
  "foldl (\<lambda>acc f. if P f then acc @ [f] else acc) acc0 fs = acc0 @ filter P fs"
  by (induction fs arbitrary: acc0) auto

lemma GetModifiedEntries_filter:
  "GetModifiedEntries w d1 d2 = filter (entryModified w d1 d2) (GetMatches (Content d1) (Content d2))"
  unfolding GetModifiedEntries_def Let_def by (simp only: foldl_append_if append_Nil)

lemma GetModifiedMetaEntries_filter:
  "GetModifiedMetaEntries w d1 d2 = filter (metaEntryModified w d1 d2) (GetMatches (Content d1) (Content d2))"
  unfolding GetModifiedMetaEntries_def Let_def by (simp only: foldl_append_if append_Nil)

definition isSymlink :: "FileInfo \<Rightarrow> bool" where
  "isSymlink info \<longleftrightarrow> fi_Mode info AND ModeSymlink \<noteq> 0"

lemma entryModified_stat1: "Lstat w (Root d1 @ f) = Inl e \<Longrightarrow> \<not> entryModified w d1 d2 f"
  by (simp add: entryModified_def Let_def)

lemma entryModified_stat2: "Lstat w (Root d2 @ f) = Inl e \<Longrightarrow> \<not> entryModified w d1 d2 f"
  by (simp add: entryModified_def Let_def split: sum.split)

lemma entryModified_stats:
  assumes "Lstat w (Root d1 @ f) = Inr s1" "Lstat w (Root d2 @ f) = Inr s2"
  shows "entryModified w d1 d2 f =
     (if isSymlink s1 \<and> isSymlink s2
      then (case CheckSameSymlink w (Root d1 @ f) (Root d2 @ f) of
              (same, Some err) \<Rightarrow> False
            | (same, None) \<Rightarrow> \<not> same)
      else if IsTar w (Root d1 @ f) then fi_Size s1 \<noteq> fi_Size s2
      else if \<not> IsDir s1
      then (case CheckSameFile w (Root d1 @ f) (Root d2 @ f) of
              (same, Some err) \<Rightarrow> False
            | (same, None) \<Rightarrow> \<not> same)
      else False)"
  using assms by (simp add: entryModified_def Let_def isSymlink_def)

lemma CheckSameSymlink_differs:
  "(case CheckSameSymlink w p1 p2 of (same, Some err) \<Rightarrow> False | (same, None) \<Rightarrow> \<not> same) \<longleftrightarrow>
   (\<exists>t1 t2. Readlink w p1 = Inr t1 \<and> Readlink w p2 = Inr t2 \<and> t1 \<noteq> t2)"
  by (cases "Readlink w p1"; cases "Readlink w p2") (simp_all add: CheckSameSymlink_def)

lemma CheckSameFile_differs:
  assumes "Lstat w p1 = Inr s1" "Lstat w p2 = Inr s2"
  shows "(case CheckSameFile w p1 p2 of (same, Some err) \<Rightarrow> False | (same, None) \<Rightarrow> \<not> same) \<longleftrightarrow>
   (fi_Size s1 \<noteq> fi_Size s2 \<or>
    (\<exists>c1 c2. ReadFile w p1 = Inr c1 \<and> ReadFile w p2 = Inr c2 \<and> c1 \<noteq> c2))"
  using assms
  by (cases "ReadFile w p1"; cases "ReadFile w p2") (simp_all add: CheckSameFile_def)

lemma metaEntryModified_stats:
  assumes "Lstat w (Root d1 @ f) = Inr s1" "Lstat w (Root d2 @ f) = Inr s2"
  shows "metaEntryModified w d1 d2 f \<longleftrightarrow>
     fi_Mode s1 \<noteq> fi_Mode s2 \<or> fi_Uid s1 \<noteq> fi_Uid s2 \<or> fi_Gid s1 \<noteq> fi_Gid s2"
  using assms by (simp add: metaEntryModified_def Let_def)

text \<open>
  Claim C3. A matched entry that is a symlink in both trees, with the same mode, uid and gid
  but different link targets, is in the result of \<^verbatim>\<open>GetModifiedEntries\<close> (the content diff) and
  is not in the result of \<^verbatim>\<open>GetModifiedMetaEntries\<close> (the metadata diff).
\<close>

theorem symlink_target_change_content_not_metadata:
  assumes "f \<in> set (GetMatches (Content d1) (Content d2))"
    and "Lstat w (Root d1 @ f) = Inr s1" "Lstat w (Root d2 @ f) = Inr s2"
    and "fi_Mode s1 AND ModeSymlink \<noteq> 0" "fi_Mode s2 AND ModeSymlink \<noteq> 0"
    and "fi_Mode s1 = fi_Mode s2" "fi_Uid s1 = fi_Uid s2" "fi_Gid s1 = fi_Gid s2"
    and "Readlink w (Root d1 @ f) = Inr t1" "Readlink w (Root d2 @ f) = Inr t2" "t1 \<noteq> t2"
  shows "f \<in> set (GetModifiedEntries w d1 d2) \<and> f \<notin> set (GetModifiedMetaEntries w d1 d2)"
proof -
  have sym: "isSymlink s1 \<and> isSymlink s2"
    using assms(4,5) by (simp add: isSymlink_def)
  have "entryModified w d1 d2 f"
    using entryModified_stats [OF assms(2,3)] sym CheckSameSymlink_differs [of w "Root d1 @ f" "Root d2 @ f"]
      assms(9,10,11) by simp
  moreover have "\<not> metaEntryModified w d1 d2 f"
    using metaEntryModified_stats [OF assms(2,3)] assms(6,7,8) by simp
  ultimately show ?thesis
    using assms(1) by (simp add: GetModifiedEntries_filter GetModifiedMetaEntries_filter)
qed

text \<open>The example of the specification: \<^verbatim>\<open>link\<close> points to \<^verbatim>\<open>/a\<close> in the first tree and to
  \<^verbatim>\<open>/b\<close> in the second.\<close>

definition w_link :: world where
  "w_link = \<lparr>
     Lstat = (\<lambda>p. if p = ''/t1/link'' \<or> p = ''/t2/link''
                   then Inr \<lparr>fi_Mode = 0x80001FF, fi_Size = 2, fi_Uid = 0, fi_Gid = 0\<rparr>
                   else Inl (Error ''no such file or directory'')),
     Readlink = (\<lambda>p. if p = ''/t1/link'' then Inr ''/a''
                      else if p = ''/t2/link'' then Inr ''/b''
                      else Inl (Error ''invalid argument'')),
     ReadFile = (\<lambda>p. Inl (Error ''no such file or directory'')),
     ReadDir = (\<lambda>p. Inl (Error ''no such file or directory'')),
     WalkVisits = (\<lambda>p. []),
     IsTar = (\<lambda>p. False),
     Join = (\<lambda>root name. root @ name)\<rparr>"

lemma GetMatches_single: "GetMatches [x] [x] = [x]"
  by code_simp

theorem symlink_target_change_witness:
  "''/link'' \<in> set (GetModifiedEntries w_link \<lparr>Root = ''/t1'', Content = [''/link'']\<rparr>
                        \<lparr>Root = ''/t2'', Content = [''/link'']\<rparr>) \<and>
   ''/link'' \<notin> set (GetModifiedMetaEntries w_link \<lparr>Root = ''/t1'', Content = [''/link'']\<rparr>
                        \<lparr>Root = ''/t2'', Content = [''/link'']\<rparr>)"
  by (rule symlink_target_change_content_not_metadata
      [where ?s1.0 = "\<lparr>fi_Mode = 0x80001FF, fi_Size = 2, fi_Uid = 0, fi_Gid = 0\<rparr>"
         and ?s2.0 = "\<lparr>fi_Mode = 0x80001FF, fi_Size = 2, fi_Uid = 0, fi_Gid = 0\<rparr>"
         and ?t1.0 = "''/a''" and ?t2.0 = "''/b''"])
     (simp_all add: w_link_def ModeSymlink_def GetMatches_single)


text \<open>
  Claim C2, as the code has it. A matched candidate whose two sides both answer \<^verbatim>\<open>Lstat\<close>,
  that is not a symlink on both sides, and whose first path \<^verbatim>\<open>IsTar\<close> recognizes as a tar
  archive, is reported as modified if and only if the two sizes differ; the contents are not
  read. (The symlink test comes before the tar test in the loop, and a failing \<^verbatim>\<open>Lstat\<close>
  skips the candidate.)
\<close>

theorem tar_entry_modified_iff_sizes_differ:
  assumes "f \<in> set (GetMatches (Content d1) (Content d2))"
    and "Lstat w (Root d1 @ f) = Inr s1" "Lstat w (Root d2 @ f) = Inr s2"
    and "\<not> (fi_Mode s1 AND ModeSymlink \<noteq> 0 \<and> fi_Mode s2 AND ModeSymlink \<noteq> 0)"
    and "IsTar w (Root d1 @ f)"
  shows "f \<in> set (GetModifiedEntries w d1 d2) \<longleftrightarrow> fi_Size s1 \<noteq> fi_Size s2"
proof -
  have "\<not> (isSymlink s1 \<and> isSymlink s2)"
    using assms(4) by (simp add: isSymlink_def)
  then have "entryModified w d1 d2 f \<longleftrightarrow> fi_Size s1 \<noteq> fi_Size s2"
    unfolding entryModified_stats [OF assms(2,3)] using assms(5) by auto
  then show ?thesis
    using assms(1) by (simp add: GetModifiedEntries_filter)
qed

text \<open>Two tar files of 2048 bytes with different contents: not reported.\<close>

definition has_suffix :: "string \<Rightarrow> string \<Rightarrow> bool" where
  "has_suffix s suf \<longleftrightarrow> drop (length s - length suf) s = suf"

definition w_tars :: world where
  "w_tars = \<lparr>
     Lstat = (\<lambda>p. if p = ''/t1/x.tar'' \<or> p = ''/t2/x.tar''
                   then Inr \<lparr>fi_Mode = 0x1A4, fi_Size = 2048, fi_Uid = 0, fi_Gid = 0\<rparr>
                   else Inl (Error ''no such file or directory'')),
     Readlink = (\<lambda>p. Inl (Error ''invalid argument'')),
     ReadFile = (\<lambda>p. if p = ''/t1/x.tar'' then Inr (replicate 2048 (CHR 0x00))
                      else if p = ''/t2/x.tar'' then Inr (replicate 2048 (CHR 0x55))
                      else Inl (Error ''no such file or directory'')),
     ReadDir = (\<lambda>p. Inl (Error ''no such file or directory'')),
     WalkVisits = (\<lambda>p. []),
     IsTar = (\<lambda>p. has_suffix p ''.tar''),
     Join = (\<lambda>root name. root @ name)\<rparr>"

theorem tar_entry_witness:
  "ReadFile w_tars ''/t1/x.tar'' \<noteq> ReadFile w_tars ''/t2/x.tar'' \<and>
   ''/x.tar'' \<notin> set (GetModifiedEntries w_tars \<lparr>Root = ''/t1'', Content = [''/x.tar'']\<rparr>
                        \<lparr>Root = ''/t2'', Content = [''/x.tar'']\<rparr>)"
proof -
  have "(''/x.tar'' \<in> set (GetModifiedEntries w_tars \<lparr>Root = ''/t1'', Content = [''/x.tar'']\<rparr>
                        \<lparr>Root = ''/t2'', Content = [''/x.tar'']\<rparr>)) \<longleftrightarrow>
        fi_Size \<lparr>fi_Mode = 0x1A4, fi_Size = 2048, fi_Uid = 0, fi_Gid = 0\<rparr>
          \<noteq> fi_Size \<lparr>fi_Mode = 0x1A4, fi_Size = 2048, fi_Uid = 0, fi_Gid = 0\<rparr>"
    by (rule tar_entry_modified_iff_sizes_differ)
       (simp_all add: w_tars_def ModeSymlink_def GetMatches_single has_suffix_def)
  moreover have "ReadFile w_tars ''/t1/x.tar'' \<noteq> ReadFile w_tars ''/t2/x.tar''"
    by (simp add: w_tars_def)
  ultimately show ?thesis by simp
qed

text \<open>Claim C2 as stated fails for a name that \<^verbatim>\<open>IsTar\<close> recognizes and that is a symlink in
  both trees: the two links have the same size and different targets, and the entry is
  reported as modified.\<close>

definition w_tarlink :: world where
  "w_tarlink = \<lparr>
     Lstat = (\<lambda>p. if p = ''/t1/l.tar'' \<or> p = ''/t2/l.tar''
                   then Inr \<lparr>fi_Mode = 0x80001FF, fi_Size = 2, fi_Uid = 0, fi_Gid = 0\<rparr>
                   else Inl (Error ''no such file or directory'')),
     Readlink = (\<lambda>p. if p = ''/t1/l.tar'' then Inr ''/a''
                      else if p = ''/t2/l.tar'' then Inr ''/b''
                      else Inl (Error ''invalid argument'')),
     ReadFile = (\<lambda>p. Inl (Error ''no such file or directory'')),
     ReadDir = (\<lambda>p. Inl (Error ''no such file or directory'')),
     WalkVisits = (\<lambda>p. []),
     IsTar = (\<lambda>p. has_suffix p ''.tar''),
     Join = (\<lambda>root name. root @ name)\<rparr>"

lemma entryModified_tarlink:
  "entryModified w_tarlink \<lparr>Root = ''/t1'', Content = [''/l.tar'']\<rparr>
      \<lparr>Root = ''/t2'', Content = [''/l.tar'']\<rparr> ''/l.tar''"
  by (simp add: entryModified_def w_tarlink_def Let_def ModeSymlink_def CheckSameSymlink_def)

theorem tar_rule_counterexample:
  "GetMatches [''/l.tar''] [''/l.tar''] = [''/l.tar''] \<and>
   IsTar w_tarlink (''/t1'' @ ''/l.tar'') \<and>
   Lstat w_tarlink (''/t1'' @ ''/l.tar'') = Inr \<lparr>fi_Mode = 0x80001FF, fi_Size = 2, fi_Uid = 0, fi_Gid = 0\<rparr> \<and>
   Lstat w_tarlink (''/t2'' @ ''/l.tar'') = Inr \<lparr>fi_Mode = 0x80001FF, fi_Size = 2, fi_Uid = 0, fi_Gid = 0\<rparr> \<and>
   GetModifiedEntries w_tarlink \<lparr>Root = ''/t1'', Content = [''/l.tar'']\<rparr>
      \<lparr>Root = ''/t2'', Content = [''/l.tar'']\<rparr> = [''/l.tar'']"
  using entryModified_tarlink
  by (simp add: GetModifiedEntries_filter GetMatches_single w_tarlink_def has_suffix_def)

text \<open>
  Claim C10. For a matched candidate whose two sides answer \<^verbatim>\<open>Lstat\<close>, the link targets decide
  only when both sides are symlinks. Otherwise, and so when exactly one side is a symlink, the
  entry is classified by the tar rule (sizes) or, when it is not a directory, by size and
  byte content; and when exactly one side is a symlink the result does not depend on what
  \<^verbatim>\<open>Readlink\<close> answers.
\<close>

theorem link_rule_only_for_two_symlinks:
  assumes "f \<in> set (GetMatches (Content d1) (Content d2))"
    and "Lstat w (Root d1 @ f) = Inr s1" "Lstat w (Root d2 @ f) = Inr s2"
  shows "(f \<in> set (GetModifiedEntries w d1 d2) \<longleftrightarrow>
          (if fi_Mode s1 AND ModeSymlink \<noteq> 0 \<and> fi_Mode s2 AND ModeSymlink \<noteq> 0
           then \<exists>t1 t2. Readlink w (Root d1 @ f) = Inr t1 \<and> Readlink w (Root d2 @ f) = Inr t2 \<and> t1 \<noteq> t2
           else if IsTar w (Root d1 @ f) then fi_Size s1 \<noteq> fi_Size s2
           else \<not> IsDir s1 \<and>
             (fi_Size s1 \<noteq> fi_Size s2 \<or>
              (\<exists>c1 c2. ReadFile w (Root d1 @ f) = Inr c1 \<and> ReadFile w (Root d2 @ f) = Inr c2 \<and> c1 \<noteq> c2)))) \<and>
         ((fi_Mode s1 AND ModeSymlink \<noteq> 0) \<noteq> (fi_Mode s2 AND ModeSymlink \<noteq> 0) \<longrightarrow>
          (f \<in> set (GetModifiedEntries (w\<lparr>Readlink := r\<rparr>) d1 d2) \<longleftrightarrow>
           f \<in> set (GetModifiedEntries w d1 d2)))"
proof -
  let ?both = "fi_Mode s1 AND ModeSymlink \<noteq> 0 \<and> fi_Mode s2 AND ModeSymlink \<noteq> 0"
  have both: "?both \<longleftrightarrow> isSymlink s1 \<and> isSymlink s2"
    by (simp add: isSymlink_def)
  have A: "entryModified w d1 d2 f \<longleftrightarrow>
          (if ?both
           then \<exists>t1 t2. Readlink w (Root d1 @ f) = Inr t1 \<and> Readlink w (Root d2 @ f) = Inr t2 \<and> t1 \<noteq> t2
           else if IsTar w (Root d1 @ f) then fi_Size s1 \<noteq> fi_Size s2
           else \<not> IsDir s1 \<and>
             (fi_Size s1 \<noteq> fi_Size s2 \<or>
              (\<exists>c1 c2. ReadFile w (Root d1 @ f) = Inr c1 \<and> ReadFile w (Root d2 @ f) = Inr c2 \<and> c1 \<noteq> c2)))"
    unfolding entryModified_stats [OF assms(2,3)] both
      CheckSameSymlink_differs CheckSameFile_differs [OF assms(2,3)]
    by simp
  have B: "entryModified (w\<lparr>Readlink := r\<rparr>) d1 d2 f = entryModified w d1 d2 f"
    if "(fi_Mode s1 AND ModeSymlink \<noteq> 0) \<noteq> (fi_Mode s2 AND ModeSymlink \<noteq> 0)"
  proof -
    have nb: "\<not> (isSymlink s1 \<and> isSymlink s2)" using that by (auto simp: isSymlink_def)
    have l1: "Lstat (w\<lparr>Readlink := r\<rparr>) (Root d1 @ f) = Inr s1"
      and l2: "Lstat (w\<lparr>Readlink := r\<rparr>) (Root d2 @ f) = Inr s2"
      using assms(2,3) by simp_all
    have cf: "CheckSameFile (w\<lparr>Readlink := r\<rparr>) p q = CheckSameFile w p q" for p q
      by (simp add: CheckSameFile_def split: sum.splits)
    show ?thesis
      unfolding entryModified_stats [OF l1 l2] entryModified_stats [OF assms(2,3)]
      using nb by (auto simp: cf)
  qed
  show ?thesis
    using A B assms(1) by (simp add: GetModifiedEntries_filter)
qed


text \<open>A symlink in the first tree against a regular file in the second.\<close>

definition w_mixed :: world where
  "w_mixed = \<lparr>
     Lstat = (\<lambda>p. if p = ''/t1/x''
                   then Inr \<lparr>fi_Mode = 0x80001FF, fi_Size = 2, fi_Uid = 0, fi_Gid = 0\<rparr>
                   else if p = ''/t2/x''
                   then Inr \<lparr>fi_Mode = 0x1A4, fi_Size = 5, fi_Uid = 0, fi_Gid = 0\<rparr>
                   else Inl (Error ''no such file or directory'')),
     Readlink = (\<lambda>p. if p = ''/t1/x'' then Inr ''/a'' else Inl (Error ''invalid argument'')),
     ReadFile = (\<lambda>p. if p = ''/t2/x'' then Inr ''hello'' else Inl (Error ''no such file or directory'')),
     ReadDir = (\<lambda>p. Inl (Error ''no such file or directory'')),
     WalkVisits = (\<lambda>p. []),
     IsTar = (\<lambda>p. False),
     Join = (\<lambda>root name. root @ name)\<rparr>"

theorem link_rule_witness:
  "''/x'' \<in> set (GetModifiedEntries w_mixed \<lparr>Root = ''/t1'', Content = [''/x'']\<rparr>
                        \<lparr>Root = ''/t2'', Content = [''/x'']\<rparr>) \<and>
   ''/x'' \<in> set (GetModifiedEntries (w_mixed\<lparr>Readlink := \<lambda>p. Inr ''/same''\<rparr>)
                        \<lparr>Root = ''/t1'', Content = [''/x'']\<rparr>
                        \<lparr>Root = ''/t2'', Content = [''/x'']\<rparr>)"
proof -
  have m: "''/x'' \<in> set (GetMatches (Content \<lparr>Root = ''/t1'', Content = [''/x'']\<rparr>)
                                     (Content \<lparr>Root = ''/t2'', Content = [''/x'']\<rparr>))"
    by (simp add: GetMatches_single)
  have l1: "Lstat w_mixed (Root \<lparr>Root = ''/t1'', Content = [''/x'']\<rparr> @ ''/x'')
            = Inr \<lparr>fi_Mode = 0x80001FF, fi_Size = 2, fi_Uid = 0, fi_Gid = 0\<rparr>"
    by (simp add: w_mixed_def)
  have l2: "Lstat w_mixed (Root \<lparr>Root = ''/t2'', Content = [''/x'']\<rparr> @ ''/x'')
            = Inr \<lparr>fi_Mode = 0x1A4, fi_Size = 5, fi_Uid = 0, fi_Gid = 0\<rparr>"
    by (simp add: w_mixed_def)
  show ?thesis
    using link_rule_only_for_two_symlinks [OF m l1 l2, of "\<lambda>p. Inr ''/same''"]
    by (simp add: ModeSymlink_def w_mixed_def IsDir_def ModeDir_def)
qed

end
